theory Spec2Isabelle
  imports Main "HOL-Library.Word"
begin

unbundle bit_operations_syntax

section \<open>inotify-helper.c: the event translator\<close>

subsection \<open>Data\<close>

type_synonym guint32 = "32 word"

text \<open>
  The \<open>IN_*\<close> constants come from \<open>local_inotify.h\<close>, which is not among the sources.
  They are taken as a parameter of every function that uses them.
\<close>

record inotify_consts =
  IN_ACCESS :: guint32
  IN_MODIFY :: guint32
  IN_ATTRIB :: guint32
  IN_CLOSE_WRITE :: guint32
  IN_CLOSE_NOWRITE :: guint32
  IN_OPEN :: guint32
  IN_MOVED_FROM :: guint32
  IN_MOVED_TO :: guint32
  IN_CREATE :: guint32
  IN_DELETE :: guint32
  IN_DELETE_SELF :: guint32
  IN_MOVE_SELF :: guint32
  IN_UNMOUNT :: guint32
  IN_Q_OVERFLOW :: guint32
  IN_IGNORED :: guint32
  IN_ISDIR :: guint32

text \<open>
  The enumerators of \<open>GDirectoryMonitorEvent\<close> that the file names, and the value \<open>-1\<close>
  that \<open>ih_mask_to_EventFlags\<close> returns in its default branch, which is none of them.
\<close>

datatype GDirectoryMonitorEvent =
    G_DIRECTORY_MONITOR_EVENT_CHANGED
  | G_DIRECTORY_MONITOR_EVENT_ATTRIBUTE_CHANGED
  | G_DIRECTORY_MONITOR_EVENT_DELETED
  | G_DIRECTORY_MONITOR_EVENT_CREATED
  | G_DIRECTORY_MONITOR_EVENT_UNMOUNTED
  | EVENT_MINUS_ONE

text \<open>\<open>ik_event_t\<close>: the fields the callback reads. A NULL \<open>name\<close> is \<open>None\<close>.\<close>

record ik_event_t =
  ev_mask :: guint32
  ev_name :: "string option"

text \<open>
  What \<open>sub->user_data\<close> points to, as the type checks \<open>G_IS_DIRECTORY_MONITOR\<close> and
  \<open>G_IS_FILE_MONITOR\<close> see it: a directory monitor, a file monitor (each with its identity),
  or something that is neither.
\<close>

datatype user_data_t = Directory_monitor nat | File_monitor nat | Other_object

record inotify_sub =
  dirname :: string
  filename :: "string option"
  cancelled :: bool
  user_data :: user_data_t

text \<open>
  What a callback does to the outside: a warning written with \<open>g_warning\<close>, or an event
  handed to one of the two emission entry points, with the path of the child \<open>GFile\<close> and
  the event flags (the third argument is always NULL).
\<close>

datatype effect =
    G_warning string
  | Directory_monitor_emit_event nat string GDirectoryMonitorEvent
  | File_monitor_emit_event nat string GDirectoryMonitorEvent

fun is_emission :: "effect \<Rightarrow> bool" where
  "is_emission (G_warning _) = False"
| "is_emission (Directory_monitor_emit_event _ _ _) = True"
| "is_emission (File_monitor_emit_event _ _ _) = True"

definition emissions :: "effect list \<Rightarrow> effect list" where
  "emissions es = filter is_emission es"

subsection \<open>ih_mask_to_EventFlags\<close>

text \<open>
  The \<open>switch\<close> as a chain of tests in the order of its case labels. A C \<open>switch\<close> cannot
  have two equal labels, so \<open>inotify_consts_ok\<close> below asks for distinct labels.
\<close>

definition ih_mask_to_EventFlags :: "inotify_consts \<Rightarrow> guint32 \<Rightarrow> GDirectoryMonitorEvent" where
  "ih_mask_to_EventFlags K mask0 =
     (let m = mask0 AND NOT (IN_ISDIR K) in
      if m = IN_MODIFY K then G_DIRECTORY_MONITOR_EVENT_CHANGED
      else if m = IN_ATTRIB K then G_DIRECTORY_MONITOR_EVENT_ATTRIBUTE_CHANGED
      else if m = IN_MOVE_SELF K \<or> m = IN_MOVED_FROM K \<or> m = IN_DELETE K \<or> m = IN_DELETE_SELF K
        then G_DIRECTORY_MONITOR_EVENT_DELETED
      else if m = IN_CREATE K \<or> m = IN_MOVED_TO K then G_DIRECTORY_MONITOR_EVENT_CREATED
      else if m = IN_UNMOUNT K then G_DIRECTORY_MONITOR_EVENT_UNMOUNTED
      else EVENT_MINUS_ONE)"

text \<open>The case labels of the \<open>switch\<close>, in source order.\<close>

definition case_labels :: "inotify_consts \<Rightarrow> guint32 list" where
  "case_labels K =
     [IN_MODIFY K, IN_ATTRIB K, IN_MOVE_SELF K, IN_MOVED_FROM K, IN_DELETE K, IN_DELETE_SELF K,
      IN_CREATE K, IN_MOVED_TO K, IN_UNMOUNT K, IN_Q_OVERFLOW K, IN_OPEN K, IN_CLOSE_WRITE K,
      IN_CLOSE_NOWRITE K, IN_ACCESS K, IN_IGNORED K]"

text \<open>
  What the code needs of the header: the labels are pairwise distinct, \<open>IN_ISDIR\<close> is a
  flag (not zero) and no label overlaps it.
\<close>

definition inotify_consts_ok :: "inotify_consts \<Rightarrow> bool" where
  "inotify_consts_ok K \<longleftrightarrow>
     distinct (case_labels K) \<and> IN_ISDIR K \<noteq> 0 \<and>
     list_all (\<lambda>c. c AND IN_ISDIR K = 0) (case_labels K)"

text \<open>The values of the Linux inotify ABI, as one instance of the parameter.\<close>

definition linux_inotify :: inotify_consts where
  "linux_inotify =
     \<lparr> IN_ACCESS = 0x1, IN_MODIFY = 0x2, IN_ATTRIB = 0x4, IN_CLOSE_WRITE = 0x8,
       IN_CLOSE_NOWRITE = 0x10, IN_OPEN = 0x20, IN_MOVED_FROM = 0x40, IN_MOVED_TO = 0x80,
       IN_CREATE = 0x100, IN_DELETE = 0x200, IN_DELETE_SELF = 0x400, IN_MOVE_SELF = 0x800,
       IN_UNMOUNT = 0x2000, IN_Q_OVERFLOW = 0x4000, IN_IGNORED = 0x8000,
       IN_ISDIR = 0x40000000 \<rparr>"

text \<open>
  The mapping table of the specification (section 4.4), row by row: each kernel mask with
  the domain event listed for it; the ignored set is listed with the value \<open>-1\<close>.
\<close>

definition mapping_table :: "inotify_consts \<Rightarrow> (guint32 \<times> GDirectoryMonitorEvent) list" where
  "mapping_table K =
     [(IN_MODIFY K, G_DIRECTORY_MONITOR_EVENT_CHANGED),
      (IN_ATTRIB K, G_DIRECTORY_MONITOR_EVENT_ATTRIBUTE_CHANGED),
      (IN_MOVE_SELF K, G_DIRECTORY_MONITOR_EVENT_DELETED),
      (IN_MOVED_FROM K, G_DIRECTORY_MONITOR_EVENT_DELETED),
      (IN_DELETE K, G_DIRECTORY_MONITOR_EVENT_DELETED),
      (IN_DELETE_SELF K, G_DIRECTORY_MONITOR_EVENT_DELETED),
      (IN_CREATE K, G_DIRECTORY_MONITOR_EVENT_CREATED),
      (IN_MOVED_TO K, G_DIRECTORY_MONITOR_EVENT_CREATED),
      (IN_UNMOUNT K, G_DIRECTORY_MONITOR_EVENT_UNMOUNTED),
      (IN_Q_OVERFLOW K, EVENT_MINUS_ONE),
      (IN_OPEN K, EVENT_MINUS_ONE),
      (IN_CLOSE_WRITE K, EVENT_MINUS_ONE),
      (IN_CLOSE_NOWRITE K, EVENT_MINUS_ONE),
      (IN_ACCESS K, EVENT_MINUS_ONE),
      (IN_IGNORED K, EVENT_MINUS_ONE)]"

subsection \<open>ih_event_callback\<close>

definition ih_event_callback :: "inotify_consts \<Rightarrow> ik_event_t \<Rightarrow> inotify_sub \<Rightarrow> effect list" where
  "ih_event_callback K event sub =
     (let eflags = ih_mask_to_EventFlags K (ev_mask event);
          fullpath = (case ev_name event of
                        Some n \<Rightarrow> dirname sub @ ''/'' @ n
                      | None \<Rightarrow> dirname sub @ ''/'')
      in case user_data sub of
           Directory_monitor monitor \<Rightarrow> [Directory_monitor_emit_event monitor fullpath eflags]
         | File_monitor monitor \<Rightarrow> [File_monitor_emit_event monitor fullpath eflags]
         | Other_object \<Rightarrow> [])"

subsection \<open>ih_not_missing_callback\<close>

text \<open>The value the callback assigns to its local \<open>mask\<close> (lines 198 and 201).\<close>

definition ih_not_missing_mask :: "inotify_consts \<Rightarrow> inotify_sub \<Rightarrow> guint32" where
  "ih_not_missing_mask K sub =
     (if filename sub \<noteq> None then IN_CREATE K else IN_CREATE K OR IN_ISDIR K)"

text \<open>
  \<open>file_exists p\<close> is what \<open>g_file_test (p, G_FILE_TEST_EXISTS)\<close> answers when the callback
  runs. With a filename the callback writes its warning before it tests the file.
\<close>

definition ih_not_missing_callback ::
  "inotify_consts \<Rightarrow> (string \<Rightarrow> bool) \<Rightarrow> inotify_sub \<Rightarrow> effect list" where
  "ih_not_missing_callback K file_exists sub =
     (let dispatch = (\<lambda>fullpath.
            let eflags = ih_mask_to_EventFlags K (ih_not_missing_mask K sub)
            in case user_data sub of
                 Directory_monitor monitor \<Rightarrow> [Directory_monitor_emit_event monitor fullpath eflags]
               | File_monitor monitor \<Rightarrow> [File_monitor_emit_event monitor fullpath eflags]
               | Other_object \<Rightarrow> [])
      in case filename sub of
           Some f \<Rightarrow>
             (let fullpath = dirname sub @ ''/'' @ f in
              G_warning (''Missing callback called fullpath = '' @ fullpath @ ''\<newline>'') #
              (if \<not> file_exists fullpath then [] else dispatch fullpath))
         | None \<Rightarrow> dispatch (dirname sub))"

section \<open>inotify-helper.c: the subscription registry\<close>

subsection \<open>ih_startup\<close>

text \<open>
  The two function-local statics of \<open>_ih_startup\<close> (the C names start with an underscore,
  which an Isabelle name cannot). Both start as FALSE.
\<close>

record ih_statics =
  initialized :: bool
  result :: bool

definition ih_statics0 :: ih_statics where
  "ih_statics0 = \<lparr> initialized = False, result = False \<rparr>"

text \<open>What one call of \<open>_ih_startup\<close> calls, in order.\<close>

datatype startup_call =
    Call_ip_startup
  | Call_g_warning string
  | Call_im_startup
  | Call_id_startup

text \<open>
  \<open>ip_ok\<close> is what \<open>_ip_startup\<close> returns if this call reaches it. The result is the
  returned value, the calls made and the statics afterwards. \<open>IH_W\<close> writes nothing:
  \<open>ih_debug_enabled\<close> is a static that starts FALSE and is assigned nowhere in the file.
\<close>

definition ih_startup :: "bool \<Rightarrow> ih_statics \<Rightarrow> bool \<times> startup_call list \<times> ih_statics" where
  "ih_startup ip_ok s =
     (if initialized s = True then (result s, [], s)
      else
        let s1 = s\<lparr>result := ip_ok\<rparr> in
        if \<not> result s1
        then (False, [Call_ip_startup, Call_g_warning ''Could not initialize inotify\<newline>''], s1)
        else (True, [Call_ip_startup, Call_im_startup, Call_id_startup], s1\<lparr>initialized := True\<rparr>))"

text \<open>
  A sequence of calls in one process: the list gives, call by call, what \<open>_ip_startup\<close>
  would answer. The result collects the returned values and the calls made.
\<close>

fun ih_startup_calls ::
  "bool list \<Rightarrow> ih_statics \<Rightarrow> bool list \<times> startup_call list \<times> ih_statics" where
  "ih_startup_calls [] s = ([], [], s)"
| "ih_startup_calls (b # bs) s =
     (case ih_startup b s of (r, cs, s1) \<Rightarrow>
        (case ih_startup_calls bs s1 of (rs, ds, s2) \<Rightarrow> (r # rs, cs @ ds, s2)))"

subsection \<open>Subscriptions and the two collaborators\<close>

text \<open>
  A subscription is passed by pointer and \<open>cancelled\<close> is written through it, so the
  subscriptions live in a store addressed by \<open>sub_ref\<close>.
\<close>

type_synonym sub_ref = nat

text \<open>
  The calls into the two collaborators, each with the subscription it is given. The two
  removal calls are logged with the value of \<open>sub->cancelled\<close> that the callee finds
  behind the pointer when it is called.
\<close>

datatype collab_call =
    Call_ip_start_watching sub_ref
  | Call_im_add sub_ref
  | Call_im_rm sub_ref bool
  | Call_ip_stop_watching sub_ref bool

record ih_world =
  subs :: "sub_ref \<Rightarrow> inotify_sub"
  kernel_watch_set :: "sub_ref set"
  missing_path_set :: "sub_ref set"
  collab_calls :: "collab_call list"

text \<open>
  Modelled from the spec: \<open>_ip_start_watching\<close> (inotify-path.c) is not among the sources.
  It attempts to start a live kernel watch for the subscription and reports success or
  failure; \<open>ok\<close> is the outcome of the attempt, and a started watch puts the subscription
  into the kernel-watch set. The spec's invariant (section 3) has no cancelled subscription
  in that set, so a cancelled subscription is not put into it.
\<close>

definition ip_start_watching :: "bool \<Rightarrow> sub_ref \<Rightarrow> ih_world \<Rightarrow> bool \<times> ih_world" where
  "ip_start_watching ok sub w =
     (ok, w\<lparr>kernel_watch_set :=
              (if ok \<and> \<not> cancelled (subs w sub) then insert sub (kernel_watch_set w)
               else kernel_watch_set w),
            collab_calls := collab_calls w @ [Call_ip_start_watching sub]\<rparr>)"

text \<open>
  Modelled from the spec: \<open>_ip_stop_watching\<close> (inotify-path.c) is not among the sources.
  It removes the subscription from the Kernel Watch Adapter.
\<close>

definition ip_stop_watching :: "sub_ref \<Rightarrow> ih_world \<Rightarrow> ih_world" where
  "ip_stop_watching sub w =
     w\<lparr>kernel_watch_set := kernel_watch_set w - {sub},
       collab_calls := collab_calls w @ [Call_ip_stop_watching sub (cancelled (subs w sub))]\<rparr>"

text \<open>
  Modelled from the spec: \<open>_im_add\<close> (inotify-missing.c) is not among the sources.
  It registers the subscription with the Missing-Path Tracker. The spec's invariant
  (section 3) has no cancelled subscription in the missing-path set, so a cancelled
  subscription is not put into it.
\<close>

definition im_add :: "sub_ref \<Rightarrow> ih_world \<Rightarrow> ih_world" where
  "im_add sub w =
     w\<lparr>missing_path_set :=
         (if \<not> cancelled (subs w sub) then insert sub (missing_path_set w)
          else missing_path_set w),
       collab_calls := collab_calls w @ [Call_im_add sub]\<rparr>"

text \<open>
  Modelled from the spec: \<open>_im_rm\<close> (inotify-missing.c) is not among the sources.
  It removes the subscription from the Missing-Path Tracker.
\<close>

definition im_rm :: "sub_ref \<Rightarrow> ih_world \<Rightarrow> ih_world" where
  "im_rm sub w =
     w\<lparr>missing_path_set := missing_path_set w - {sub},
       collab_calls := collab_calls w @ [Call_im_rm sub (cancelled (subs w sub))]\<rparr>"

subsection \<open>ih_sub_add and ih_sub_cancel\<close>

definition ih_sub_add :: "bool \<Rightarrow> sub_ref \<Rightarrow> ih_world \<Rightarrow> bool \<times> ih_world" where
  "ih_sub_add ok sub w =
     (case ip_start_watching ok sub w of (started, w1) \<Rightarrow>
        (True, if \<not> started then im_add sub w1 else w1))"

text \<open>The assignment \<open>sub->cancelled = TRUE\<close>.\<close>

definition set_cancelled :: "sub_ref \<Rightarrow> ih_world \<Rightarrow> ih_world" where
  "set_cancelled sub w = w\<lparr>subs := (subs w)(sub := (subs w sub)\<lparr>cancelled := True\<rparr>)\<rparr>"

definition ih_sub_cancel :: "sub_ref \<Rightarrow> ih_world \<Rightarrow> bool \<times> ih_world" where
  "ih_sub_cancel sub w =
     (if \<not> cancelled (subs w sub)
      then (True, ip_stop_watching sub (im_rm sub (set_cancelled sub w)))
      else (True, w))"

text \<open>The public operations on subscriptions, and a run of them.\<close>

datatype ih_op = Sub_add bool sub_ref | Sub_cancel sub_ref

fun ih_run :: "ih_op list \<Rightarrow> ih_world \<Rightarrow> ih_world" where
  "ih_run [] w = w"
| "ih_run (Sub_add ok sub # ops) w = ih_run ops (snd (ih_sub_add ok sub w))"
| "ih_run (Sub_cancel sub # ops) w = ih_run ops (snd (ih_sub_cancel sub w))"

text \<open>A world with no watches yet, in which every subscription is a fresh one.\<close>

definition ih_world0 :: ih_world where
  "ih_world0 =
     \<lparr> subs = (\<lambda>_. \<lparr> dirname = ''/tmp/watchdir'', filename = None, cancelled = False,
                      user_data = Directory_monitor 0 \<rparr>),
       kernel_watch_set = {}, missing_path_set = {}, collab_calls = [] \<rparr>"

section \<open>gsocketinputstream.c: the cancellable stream\<close>

subsection \<open>Data\<close>

record GSocketInputStreamPrivate =
  fd :: int
  close_fd_at_close :: bool

text \<open>The value of \<open>EINTR\<close> in the Linux \<open>errno.h\<close>; only its identity matters below.\<close>

definition EINTR :: int where
  "EINTR = 4"

text \<open>
  The errors the stream sets: the one of \<open>g_cancellable_set_error_if_cancelled\<close>, and a
  \<open>G_IO_ERROR\<close> whose code is \<open>g_io_error_from_errno (errno)\<close>, kept with its errno.
\<close>

datatype GError = G_IO_ERROR_CANCELLED | G_IO_ERROR_from_errno int

text \<open>
  What the system calls answer: \<open>poll\<close> the number of ready descriptors, \<open>read\<close> a byte
  count, \<open>close\<close> zero; or each of them \<open>-1\<close> with \<open>errno\<close> set.
\<close>

datatype poll_ret = Poll_ready nat | Poll_failed int
datatype read_ret = Read_bytes nat | Read_failed int
datatype close_ret = Close_ok | Close_failed int

subsection \<open>g_socket_input_stream_read\<close>

text \<open>
  The \<open>do ... while (poll_ret == -1 && errno == EINTR)\<close> loop over what successive calls
  of \<open>poll\<close> answer. \<open>None\<close>: the answers given end before the loop does.
\<close>

fun poll_loop :: "poll_ret list \<Rightarrow> poll_ret option" where
  "poll_loop [] = None"
| "poll_loop (p # ps) = (if p = Poll_failed EINTR then poll_loop ps else Some p)"

text \<open>
  The \<open>while (1)\<close> loop. Each round sees whether the cancellable is cancelled and, if it
  is not, what \<open>read\<close> answers. \<open>res\<close> is the local variable: the function declares it
  without a value, so its value on entry is indeterminate and is a parameter here.
  The result is the returned \<open>gssize\<close> and the error set; \<open>None\<close>: the rounds given end
  before the loop does.
\<close>

fun read_loop :: "int \<Rightarrow> (bool \<times> read_ret) list \<Rightarrow> (int \<times> GError option) option" where
  "read_loop res [] = None"
| "read_loop res ((is_cancelled, r) # rounds) =
     (if is_cancelled then Some (res, Some G_IO_ERROR_CANCELLED)
      else case r of
             Read_bytes n \<Rightarrow> Some (int n, None)
           | Read_failed e \<Rightarrow>
               if e = EINTR then read_loop (- 1) rounds
               else Some (- 1, Some (G_IO_ERROR_from_errno e)))"

text \<open>
  \<open>cancel_fd\<close> is what \<open>g_cancellable_get_fd\<close> answers (\<open>-1\<close>: nothing to wait on),
  \<open>polls\<close> and \<open>rounds\<close> what the two loops meet, \<open>res0\<close> the indeterminate first value
  of \<open>res\<close>.
\<close>

definition g_socket_input_stream_read ::
  "int \<Rightarrow> poll_ret list \<Rightarrow> (bool \<times> read_ret) list \<Rightarrow> int \<Rightarrow> (int \<times> GError option) option" where
  "g_socket_input_stream_read cancel_fd polls rounds res0 =
     (if cancel_fd \<noteq> - 1 then
        (case poll_loop polls of
           None \<Rightarrow> None
         | Some (Poll_failed e) \<Rightarrow> Some (- 1, Some (G_IO_ERROR_from_errno e))
         | Some (Poll_ready n) \<Rightarrow> read_loop res0 rounds)
      else read_loop res0 rounds)"

subsection \<open>read_async_cb\<close>

text \<open>
  The same loop in the asynchronous path, which assigns \<open>count_read = -1\<close> before it
  leaves the loop on cancellation. The result is what the callback stores in the
  asynchronous result: the count, and the error when the count is \<open>-1\<close>.
\<close>

fun read_async_cb :: "(bool \<times> read_ret) list \<Rightarrow> (int \<times> GError option) option" where
  "read_async_cb [] = None"
| "read_async_cb ((is_cancelled, r) # rounds) =
     (if is_cancelled then Some (- 1, Some G_IO_ERROR_CANCELLED)
      else case r of
             Read_bytes n \<Rightarrow> Some (int n, None)
           | Read_failed e \<Rightarrow>
               if e = EINTR then read_async_cb rounds
               else Some (- 1, Some (G_IO_ERROR_from_errno e)))"

subsection \<open>g_socket_input_stream_close\<close>

text \<open>
  The stream handle together with the system calls issued on its behalf so far.
\<close>

datatype syscall = Sys_close int

record stream_world =
  priv :: GSocketInputStreamPrivate
  syscalls :: "syscall list"

text \<open>\<open>r\<close> is what \<open>close\<close> answers if the function calls it.\<close>

definition g_socket_input_stream_close ::
  "close_ret \<Rightarrow> stream_world \<Rightarrow> (bool \<times> GError option) \<times> stream_world" where
  "g_socket_input_stream_close r w =
     (if \<not> close_fd_at_close (priv w) then ((True, None), w)
      else
        let w1 = w\<lparr>syscalls := syscalls w @ [Sys_close (fd (priv w))]\<rparr> in
        case r of
          Close_ok \<Rightarrow> ((True, None), w1)
        | Close_failed e \<Rightarrow> ((False, Some (G_IO_ERROR_from_errno e)), w1))"

text \<open>Closing again and again, one answer of \<open>close\<close> per call.\<close>

fun close_calls ::
  "close_ret list \<Rightarrow> stream_world \<Rightarrow> (bool \<times> GError option) list \<times> stream_world" where
  "close_calls [] w = ([], w)"
| "close_calls (r # rs) w =
     (case g_socket_input_stream_close r w of (x, w1) \<Rightarrow>
        (case close_calls rs w1 of (xs, w2) \<Rightarrow> (x # xs, w2)))"

section \<open>Properties of the event translator\<close>

lemma and_not_flag:
  fixes c d :: guint32
  assumes "c AND d = 0"
  shows "c AND NOT d = c" and "(c OR d) AND NOT d = c"
proof -
  have b: "\<not> (bit c n \<and> bit d n)" for n
    using assms by (metis bit_and_iff bit_0_eq bot_apply bot_bool_def)
  show "c AND NOT d = c"
    by (rule bit_eqI) (use b in \<open>auto simp: bit_and_iff bit_not_iff\<close>)
  show "(c OR d) AND NOT d = c"
    by (rule bit_eqI) (use b in \<open>auto simp: bit_and_iff bit_or_iff bit_not_iff\<close>)
qed

lemma label_not_earlier:
  assumes "distinct (case_labels K)" and "case_labels K = xs @ c # ys"
  shows "c \<notin> set xs"
  using assms by simp

lemma stripped_label:
  assumes d: "distinct (case_labels K)"
  shows
    "m AND NOT (IN_ISDIR K) = IN_MODIFY K \<Longrightarrow> ih_mask_to_EventFlags K m = G_DIRECTORY_MONITOR_EVENT_CHANGED" and
    "m AND NOT (IN_ISDIR K) = IN_ATTRIB K \<Longrightarrow> ih_mask_to_EventFlags K m = G_DIRECTORY_MONITOR_EVENT_ATTRIBUTE_CHANGED" and
    "m AND NOT (IN_ISDIR K) = IN_MOVE_SELF K \<Longrightarrow> ih_mask_to_EventFlags K m = G_DIRECTORY_MONITOR_EVENT_DELETED" and
    "m AND NOT (IN_ISDIR K) = IN_MOVED_FROM K \<Longrightarrow> ih_mask_to_EventFlags K m = G_DIRECTORY_MONITOR_EVENT_DELETED" and
    "m AND NOT (IN_ISDIR K) = IN_DELETE K \<Longrightarrow> ih_mask_to_EventFlags K m = G_DIRECTORY_MONITOR_EVENT_DELETED" and
    "m AND NOT (IN_ISDIR K) = IN_DELETE_SELF K \<Longrightarrow> ih_mask_to_EventFlags K m = G_DIRECTORY_MONITOR_EVENT_DELETED" and
    "m AND NOT (IN_ISDIR K) = IN_CREATE K \<Longrightarrow> ih_mask_to_EventFlags K m = G_DIRECTORY_MONITOR_EVENT_CREATED" and
    "m AND NOT (IN_ISDIR K) = IN_MOVED_TO K \<Longrightarrow> ih_mask_to_EventFlags K m = G_DIRECTORY_MONITOR_EVENT_CREATED" and
    "m AND NOT (IN_ISDIR K) = IN_UNMOUNT K \<Longrightarrow> ih_mask_to_EventFlags K m = G_DIRECTORY_MONITOR_EVENT_UNMOUNTED" and
    "m AND NOT (IN_ISDIR K) = IN_Q_OVERFLOW K \<Longrightarrow> ih_mask_to_EventFlags K m = EVENT_MINUS_ONE" and
    "m AND NOT (IN_ISDIR K) = IN_OPEN K \<Longrightarrow> ih_mask_to_EventFlags K m = EVENT_MINUS_ONE" and
    "m AND NOT (IN_ISDIR K) = IN_CLOSE_WRITE K \<Longrightarrow> ih_mask_to_EventFlags K m = EVENT_MINUS_ONE" and
    "m AND NOT (IN_ISDIR K) = IN_CLOSE_NOWRITE K \<Longrightarrow> ih_mask_to_EventFlags K m = EVENT_MINUS_ONE" and
    "m AND NOT (IN_ISDIR K) = IN_ACCESS K \<Longrightarrow> ih_mask_to_EventFlags K m = EVENT_MINUS_ONE" and
    "m AND NOT (IN_ISDIR K) = IN_IGNORED K \<Longrightarrow> ih_mask_to_EventFlags K m = EVENT_MINUS_ONE"
proof -
  have n0: "IN_MODIFY K \<notin> set []"
    by (rule label_not_earlier [OF d, where ys = "[IN_ATTRIB K, IN_MOVE_SELF K, IN_MOVED_FROM K, IN_DELETE K, IN_DELETE_SELF K, IN_CREATE K, IN_MOVED_TO K, IN_UNMOUNT K, IN_Q_OVERFLOW K, IN_OPEN K, IN_CLOSE_WRITE K, IN_CLOSE_NOWRITE K, IN_ACCESS K, IN_IGNORED K]"]) (simp add: case_labels_def)
  show "m AND NOT (IN_ISDIR K) = IN_MODIFY K \<Longrightarrow> ih_mask_to_EventFlags K m = G_DIRECTORY_MONITOR_EVENT_CHANGED"
    using n0 by (simp add: ih_mask_to_EventFlags_def Let_def)
  have n1: "IN_ATTRIB K \<notin> set [IN_MODIFY K]"
    by (rule label_not_earlier [OF d, where ys = "[IN_MOVE_SELF K, IN_MOVED_FROM K, IN_DELETE K, IN_DELETE_SELF K, IN_CREATE K, IN_MOVED_TO K, IN_UNMOUNT K, IN_Q_OVERFLOW K, IN_OPEN K, IN_CLOSE_WRITE K, IN_CLOSE_NOWRITE K, IN_ACCESS K, IN_IGNORED K]"]) (simp add: case_labels_def)
  show "m AND NOT (IN_ISDIR K) = IN_ATTRIB K \<Longrightarrow> ih_mask_to_EventFlags K m = G_DIRECTORY_MONITOR_EVENT_ATTRIBUTE_CHANGED"
    using n1 by (simp add: ih_mask_to_EventFlags_def Let_def)
  have n2: "IN_MOVE_SELF K \<notin> set [IN_MODIFY K, IN_ATTRIB K]"
    by (rule label_not_earlier [OF d, where ys = "[IN_MOVED_FROM K, IN_DELETE K, IN_DELETE_SELF K, IN_CREATE K, IN_MOVED_TO K, IN_UNMOUNT K, IN_Q_OVERFLOW K, IN_OPEN K, IN_CLOSE_WRITE K, IN_CLOSE_NOWRITE K, IN_ACCESS K, IN_IGNORED K]"]) (simp add: case_labels_def)
  show "m AND NOT (IN_ISDIR K) = IN_MOVE_SELF K \<Longrightarrow> ih_mask_to_EventFlags K m = G_DIRECTORY_MONITOR_EVENT_DELETED"
    using n2 by (simp add: ih_mask_to_EventFlags_def Let_def)
  have n3: "IN_MOVED_FROM K \<notin> set [IN_MODIFY K, IN_ATTRIB K, IN_MOVE_SELF K]"
    by (rule label_not_earlier [OF d, where ys = "[IN_DELETE K, IN_DELETE_SELF K, IN_CREATE K, IN_MOVED_TO K, IN_UNMOUNT K, IN_Q_OVERFLOW K, IN_OPEN K, IN_CLOSE_WRITE K, IN_CLOSE_NOWRITE K, IN_ACCESS K, IN_IGNORED K]"]) (simp add: case_labels_def)
  show "m AND NOT (IN_ISDIR K) = IN_MOVED_FROM K \<Longrightarrow> ih_mask_to_EventFlags K m = G_DIRECTORY_MONITOR_EVENT_DELETED"
    using n3 by (simp add: ih_mask_to_EventFlags_def Let_def)
  have n4: "IN_DELETE K \<notin> set [IN_MODIFY K, IN_ATTRIB K, IN_MOVE_SELF K, IN_MOVED_FROM K]"
    by (rule label_not_earlier [OF d, where ys = "[IN_DELETE_SELF K, IN_CREATE K, IN_MOVED_TO K, IN_UNMOUNT K, IN_Q_OVERFLOW K, IN_OPEN K, IN_CLOSE_WRITE K, IN_CLOSE_NOWRITE K, IN_ACCESS K, IN_IGNORED K]"]) (simp add: case_labels_def)
  show "m AND NOT (IN_ISDIR K) = IN_DELETE K \<Longrightarrow> ih_mask_to_EventFlags K m = G_DIRECTORY_MONITOR_EVENT_DELETED"
    using n4 by (simp add: ih_mask_to_EventFlags_def Let_def)
  have n5: "IN_DELETE_SELF K \<notin> set [IN_MODIFY K, IN_ATTRIB K, IN_MOVE_SELF K, IN_MOVED_FROM K, IN_DELETE K]"
    by (rule label_not_earlier [OF d, where ys = "[IN_CREATE K, IN_MOVED_TO K, IN_UNMOUNT K, IN_Q_OVERFLOW K, IN_OPEN K, IN_CLOSE_WRITE K, IN_CLOSE_NOWRITE K, IN_ACCESS K, IN_IGNORED K]"]) (simp add: case_labels_def)
  show "m AND NOT (IN_ISDIR K) = IN_DELETE_SELF K \<Longrightarrow> ih_mask_to_EventFlags K m = G_DIRECTORY_MONITOR_EVENT_DELETED"
    using n5 by (simp add: ih_mask_to_EventFlags_def Let_def)
  have n6: "IN_CREATE K \<notin> set [IN_MODIFY K, IN_ATTRIB K, IN_MOVE_SELF K, IN_MOVED_FROM K, IN_DELETE K, IN_DELETE_SELF K]"
    by (rule label_not_earlier [OF d, where ys = "[IN_MOVED_TO K, IN_UNMOUNT K, IN_Q_OVERFLOW K, IN_OPEN K, IN_CLOSE_WRITE K, IN_CLOSE_NOWRITE K, IN_ACCESS K, IN_IGNORED K]"]) (simp add: case_labels_def)
  show "m AND NOT (IN_ISDIR K) = IN_CREATE K \<Longrightarrow> ih_mask_to_EventFlags K m = G_DIRECTORY_MONITOR_EVENT_CREATED"
    using n6 by (simp add: ih_mask_to_EventFlags_def Let_def)
  have n7: "IN_MOVED_TO K \<notin> set [IN_MODIFY K, IN_ATTRIB K, IN_MOVE_SELF K, IN_MOVED_FROM K, IN_DELETE K, IN_DELETE_SELF K, IN_CREATE K]"
    by (rule label_not_earlier [OF d, where ys = "[IN_UNMOUNT K, IN_Q_OVERFLOW K, IN_OPEN K, IN_CLOSE_WRITE K, IN_CLOSE_NOWRITE K, IN_ACCESS K, IN_IGNORED K]"]) (simp add: case_labels_def)
  show "m AND NOT (IN_ISDIR K) = IN_MOVED_TO K \<Longrightarrow> ih_mask_to_EventFlags K m = G_DIRECTORY_MONITOR_EVENT_CREATED"
    using n7 by (simp add: ih_mask_to_EventFlags_def Let_def)
  have n8: "IN_UNMOUNT K \<notin> set [IN_MODIFY K, IN_ATTRIB K, IN_MOVE_SELF K, IN_MOVED_FROM K, IN_DELETE K, IN_DELETE_SELF K, IN_CREATE K, IN_MOVED_TO K]"
    by (rule label_not_earlier [OF d, where ys = "[IN_Q_OVERFLOW K, IN_OPEN K, IN_CLOSE_WRITE K, IN_CLOSE_NOWRITE K, IN_ACCESS K, IN_IGNORED K]"]) (simp add: case_labels_def)
  show "m AND NOT (IN_ISDIR K) = IN_UNMOUNT K \<Longrightarrow> ih_mask_to_EventFlags K m = G_DIRECTORY_MONITOR_EVENT_UNMOUNTED"
    using n8 by (simp add: ih_mask_to_EventFlags_def Let_def)
  have n9: "IN_Q_OVERFLOW K \<notin> set [IN_MODIFY K, IN_ATTRIB K, IN_MOVE_SELF K, IN_MOVED_FROM K, IN_DELETE K, IN_DELETE_SELF K, IN_CREATE K, IN_MOVED_TO K, IN_UNMOUNT K]"
    by (rule label_not_earlier [OF d, where ys = "[IN_OPEN K, IN_CLOSE_WRITE K, IN_CLOSE_NOWRITE K, IN_ACCESS K, IN_IGNORED K]"]) (simp add: case_labels_def)
  show "m AND NOT (IN_ISDIR K) = IN_Q_OVERFLOW K \<Longrightarrow> ih_mask_to_EventFlags K m = EVENT_MINUS_ONE"
    using n9 by (simp add: ih_mask_to_EventFlags_def Let_def)
  have n10: "IN_OPEN K \<notin> set [IN_MODIFY K, IN_ATTRIB K, IN_MOVE_SELF K, IN_MOVED_FROM K, IN_DELETE K, IN_DELETE_SELF K, IN_CREATE K, IN_MOVED_TO K, IN_UNMOUNT K, IN_Q_OVERFLOW K]"
    by (rule label_not_earlier [OF d, where ys = "[IN_CLOSE_WRITE K, IN_CLOSE_NOWRITE K, IN_ACCESS K, IN_IGNORED K]"]) (simp add: case_labels_def)
  show "m AND NOT (IN_ISDIR K) = IN_OPEN K \<Longrightarrow> ih_mask_to_EventFlags K m = EVENT_MINUS_ONE"
    using n10 by (simp add: ih_mask_to_EventFlags_def Let_def)
  have n11: "IN_CLOSE_WRITE K \<notin> set [IN_MODIFY K, IN_ATTRIB K, IN_MOVE_SELF K, IN_MOVED_FROM K, IN_DELETE K, IN_DELETE_SELF K, IN_CREATE K, IN_MOVED_TO K, IN_UNMOUNT K, IN_Q_OVERFLOW K, IN_OPEN K]"
    by (rule label_not_earlier [OF d, where ys = "[IN_CLOSE_NOWRITE K, IN_ACCESS K, IN_IGNORED K]"]) (simp add: case_labels_def)
  show "m AND NOT (IN_ISDIR K) = IN_CLOSE_WRITE K \<Longrightarrow> ih_mask_to_EventFlags K m = EVENT_MINUS_ONE"
    using n11 by (simp add: ih_mask_to_EventFlags_def Let_def)
  have n12: "IN_CLOSE_NOWRITE K \<notin> set [IN_MODIFY K, IN_ATTRIB K, IN_MOVE_SELF K, IN_MOVED_FROM K, IN_DELETE K, IN_DELETE_SELF K, IN_CREATE K, IN_MOVED_TO K, IN_UNMOUNT K, IN_Q_OVERFLOW K, IN_OPEN K, IN_CLOSE_WRITE K]"
    by (rule label_not_earlier [OF d, where ys = "[IN_ACCESS K, IN_IGNORED K]"]) (simp add: case_labels_def)
  show "m AND NOT (IN_ISDIR K) = IN_CLOSE_NOWRITE K \<Longrightarrow> ih_mask_to_EventFlags K m = EVENT_MINUS_ONE"
    using n12 by (simp add: ih_mask_to_EventFlags_def Let_def)
  have n13: "IN_ACCESS K \<notin> set [IN_MODIFY K, IN_ATTRIB K, IN_MOVE_SELF K, IN_MOVED_FROM K, IN_DELETE K, IN_DELETE_SELF K, IN_CREATE K, IN_MOVED_TO K, IN_UNMOUNT K, IN_Q_OVERFLOW K, IN_OPEN K, IN_CLOSE_WRITE K, IN_CLOSE_NOWRITE K]"
    by (rule label_not_earlier [OF d, where ys = "[IN_IGNORED K]"]) (simp add: case_labels_def)
  show "m AND NOT (IN_ISDIR K) = IN_ACCESS K \<Longrightarrow> ih_mask_to_EventFlags K m = EVENT_MINUS_ONE"
    using n13 by (simp add: ih_mask_to_EventFlags_def Let_def)
  have n14: "IN_IGNORED K \<notin> set [IN_MODIFY K, IN_ATTRIB K, IN_MOVE_SELF K, IN_MOVED_FROM K, IN_DELETE K, IN_DELETE_SELF K, IN_CREATE K, IN_MOVED_TO K, IN_UNMOUNT K, IN_Q_OVERFLOW K, IN_OPEN K, IN_CLOSE_WRITE K, IN_CLOSE_NOWRITE K, IN_ACCESS K]"
    by (rule label_not_earlier [OF d, where ys = "[]"]) (simp add: case_labels_def)
  show "m AND NOT (IN_ISDIR K) = IN_IGNORED K \<Longrightarrow> ih_mask_to_EventFlags K m = EVENT_MINUS_ONE"
    using n14 by (simp add: ih_mask_to_EventFlags_def Let_def)
qed

lemma linux_ok: "inotify_consts_ok linux_inotify"
  by (simp add: inotify_consts_ok_def case_labels_def linux_inotify_def)

lemma table_row_label:
  "(c, e) \<in> set (mapping_table K) \<Longrightarrow> c \<in> set (case_labels K)"
  unfolding mapping_table_def case_labels_def by auto

text \<open>
  C2. For every row of the mapping table, \<open>ih_mask_to_EventFlags\<close> returns the listed
  event for the row's mask, with or without the is-directory flag: modify gives Changed,
  attribute-change AttributeChanged, move-self, moved-from, delete and delete-self Deleted,
  create and moved-to Created, unmount Unmounted, and each mask of the ignored set the
  value \<open>-1\<close>.
\<close>

theorem ih_mask_to_EventFlags_table:
  assumes "inotify_consts_ok K" and "(c, e) \<in> set (mapping_table K)"
  shows "ih_mask_to_EventFlags K c = e \<and> ih_mask_to_EventFlags K (c OR IN_ISDIR K) = e"
proof -
  from assms(1) have d: "distinct (case_labels K)"
    and z: "\<forall>c\<in>set (case_labels K). c AND IN_ISDIR K = 0"
    by (simp_all add: inotify_consts_ok_def list_all_iff)
  from z table_row_label [OF assms(2)] have c0: "c AND IN_ISDIR K = 0" by blast
  have hit: "ih_mask_to_EventFlags K m = e" if "m AND NOT (IN_ISDIR K) = c" for m
    using assms(2) that stripped_label [OF d, of m]
    unfolding mapping_table_def by auto
  from hit and_not_flag [OF c0] show ?thesis by blast
qed

theorem ih_mask_to_EventFlags_table_witness:
  "inotify_consts_ok linux_inotify \<and> (0x200, G_DIRECTORY_MONITOR_EVENT_DELETED) \<in> set (mapping_table linux_inotify)
   \<and> ih_mask_to_EventFlags linux_inotify 0x200 = G_DIRECTORY_MONITOR_EVENT_DELETED 
   \<and> ih_mask_to_EventFlags linux_inotify 0x40000200 = G_DIRECTORY_MONITOR_EVENT_DELETED"
proof -
  have r: "(0x200, G_DIRECTORY_MONITOR_EVENT_DELETED) \<in> set (mapping_table linux_inotify)"
    by (simp add: mapping_table_def linux_inotify_def)
  have i: "(0x200 :: guint32) OR IN_ISDIR linux_inotify = 0x40000200"
    by (simp add: linux_inotify_def)
  from ih_mask_to_EventFlags_table [OF linux_ok r] linux_ok r i show ?thesis by simp
qed







text \<open>
  C1 (the code differs). For an event whose mask is in the ignored set, here \<open>IN_OPEN\<close> on
  a subscription of a directory monitor, \<open>ih_event_callback\<close> does not return early: it
  hands the value \<open>-1\<close> to the directory monitor's emission entry point.
\<close>

theorem ih_event_callback_emits_minus_one:
  "ih_event_callback linux_inotify \<lparr> ev_mask = 0x20, ev_name = None \<rparr>
     \<lparr> dirname = ''/tmp/watchdir'', filename = None, cancelled = False,
       user_data = Directory_monitor 0 \<rparr>
   = [Directory_monitor_emit_event 0 ''/tmp/watchdir/'' EVENT_MINUS_ONE]"
  by (simp add: ih_event_callback_def ih_mask_to_EventFlags_def linux_inotify_def)

text \<open>
  C10. When the subscription's \<open>user_data\<close> is neither a directory monitor nor a file
  monitor, \<open>ih_event_callback\<close> and \<open>ih_not_missing_callback\<close> both run to their end and
  emit no event.
\<close>

theorem neither_monitor_emits_nothing:
  assumes "user_data sub = Other_object"
  shows "ih_event_callback K event sub = []
       \<and> emissions (ih_not_missing_callback K file_exists sub) = []"
  using assms
  by (simp add: ih_event_callback_def ih_not_missing_callback_def emissions_def Let_def
           split: option.splits)

theorem neither_monitor_emits_nothing_witness:
  "ih_event_callback linux_inotify \<lparr> ev_mask = 0x100, ev_name = Some ''a.txt'' \<rparr>
     \<lparr> dirname = ''/tmp/watchdir'', filename = Some ''a.txt'', cancelled = False,
       user_data = Other_object \<rparr> = []
   \<and> emissions (ih_not_missing_callback linux_inotify (\<lambda>p. True)
        \<lparr> dirname = ''/tmp/watchdir'', filename = Some ''a.txt'', cancelled = False,
          user_data = Other_object \<rparr>) = []"
  using neither_monitor_emits_nothing [of "\<lparr> dirname = ''/tmp/watchdir'',
     filename = Some ''a.txt'', cancelled = False, user_data = Other_object \<rparr>"
     linux_inotify "\<lparr> ev_mask = 0x100, ev_name = Some ''a.txt'' \<rparr>" "\<lambda>p. True"]
  by simp


section \<open>Properties of the subscription registry\<close>

lemma ih_startup_latched:
  "initialized s \<Longrightarrow> ih_startup b s = (result s, [], s)"
  by (simp add: ih_startup_def)

lemma ih_startup_calls_latched:
  "initialized s \<Longrightarrow> ih_startup_calls bs s = (replicate (length bs) (result s), [], s)"
  by (induction bs) (simp_all add: ih_startup_latched)

lemma ih_startup_fails:
  "\<not> initialized s \<Longrightarrow>
   ih_startup False s =
     (False, [Call_ip_startup, Call_g_warning ''Could not initialize inotify\<newline>''],
      s\<lparr>result := False\<rparr>)"
  by (simp add: ih_startup_def Let_def)

lemma ih_startup_succeeds:
  "\<not> initialized s \<Longrightarrow>
   ih_startup True s =
     (True, [Call_ip_startup, Call_im_startup, Call_id_startup],
      s\<lparr>result := True, initialized := True\<rparr>)"
  by (simp add: ih_startup_def Let_def)

lemma ih_startup_calls_Cons:
  "fst (ih_startup_calls (b # bs) s) =
     fst (ih_startup b s) # fst (ih_startup_calls bs (snd (snd (ih_startup b s))))"
  "fst (snd (ih_startup_calls (b # bs) s)) =
     fst (snd (ih_startup b s)) @ fst (snd (ih_startup_calls bs (snd (snd (ih_startup b s)))))"
  "snd (snd (ih_startup_calls (b # bs) s)) =
     snd (snd (ih_startup_calls bs (snd (snd (ih_startup b s)))))"
  by (simp_all split: prod.splits)

lemma ih_startup_calls_unlatched:
  assumes "\<not> initialized s"
  shows "fst (ih_startup_calls bs s) =
           replicate (length (takeWhile Not bs)) False @
           replicate (length bs - length (takeWhile Not bs)) True
       \<and> fst (snd (ih_startup_calls bs s)) =
           concat (replicate (length (takeWhile Not bs))
                     [Call_ip_startup, Call_g_warning ''Could not initialize inotify\<newline>'']) @
           (if length (takeWhile Not bs) < length bs
            then [Call_ip_startup, Call_im_startup, Call_id_startup] else [])
       \<and> initialized (snd (snd (ih_startup_calls bs s))) = (length (takeWhile Not bs) < length bs)"
  using assms
proof (induction bs arbitrary: s)
  case Nil
  then show ?case by simp
next
  case (Cons b bs)
  show ?case
  proof (cases b)
    case True
    with Cons.prems show ?thesis
      by (simp add: ih_startup_calls_Cons ih_startup_succeeds ih_startup_calls_latched
               del: ih_startup_calls.simps)
  next
    case False
    have "\<not> initialized (s\<lparr>result := False\<rparr>)" using Cons.prems by simp
    from Cons.IH [OF this] False Cons.prems show ?thesis
      by (simp add: ih_startup_calls_Cons ih_startup_fails del: ih_startup_calls.simps)
  qed
qed

text \<open>
  C4 (amended). The latch of \<open>ih_startup\<close> is set only by a call that succeeds. In a
  process whose calls would see the answers \<open>bs\<close> of \<open>_ip_startup\<close>, every call before
  the first success calls \<open>_ip_startup\<close>, reports the failure once and returns FALSE; the
  first successful call initializes the three collaborators once and returns TRUE; every
  later call returns TRUE and calls nothing. So the Missing-Path Tracker and the
  diagnostics are initialized at most once.
\<close>

theorem ih_startup_latch_on_success:
  "fst (ih_startup_calls bs ih_statics0) =
     replicate (length (takeWhile Not bs)) False @
     replicate (length bs - length (takeWhile Not bs)) True
   \<and> fst (snd (ih_startup_calls bs ih_statics0)) =
     concat (replicate (length (takeWhile Not bs))
               [Call_ip_startup, Call_g_warning ''Could not initialize inotify\<newline>'']) @
     (if length (takeWhile Not bs) < length bs
      then [Call_ip_startup, Call_im_startup, Call_id_startup] else [])
   \<and> initialized (snd (snd (ih_startup_calls bs ih_statics0))) =
       (length (takeWhile Not bs) < length bs)
   \<and> count_list (fst (snd (ih_startup_calls bs ih_statics0))) Call_im_startup \<le> 1
   \<and> count_list (fst (snd (ih_startup_calls bs ih_statics0))) Call_id_startup \<le> 1"
proof -
  have u: "\<not> initialized ih_statics0" by (simp add: ih_statics0_def)
  have c: "count_list (concat (replicate n [Call_ip_startup, Call_g_warning w])) x = 0"
    if "x \<noteq> Call_ip_startup" "x \<noteq> Call_g_warning w" for n w x
    using that by (induction n) simp_all
  from ih_startup_calls_unlatched [OF u, of bs] show ?thesis
    by (simp add: c)
qed

theorem ih_startup_latch_on_success_witness:
  "ih_startup_calls [False, True, False, True] ih_statics0 =
     ([False, True, True, True],
      [Call_ip_startup, Call_g_warning ''Could not initialize inotify\<newline>'',
       Call_ip_startup, Call_im_startup, Call_id_startup],
      \<lparr> initialized = True, result = True \<rparr>)"
  using ih_startup_latch_on_success [of "[False, True, False, True]"]
  by (simp add: ih_startup_def ih_statics0_def)

text \<open>
  Against C4 as stated: when \<open>_ip_startup\<close> fails twice, the second call of
  \<open>ih_startup\<close> calls it again and reports again.
\<close>

theorem ih_startup_failure_reported_again:
  "fst (snd (ih_startup False (snd (snd (ih_startup False ih_statics0))))) =
     [Call_ip_startup, Call_g_warning ''Could not initialize inotify\<newline>'']
   \<and> count_list (fst (snd (ih_startup_calls [False, False] ih_statics0)))
        (Call_g_warning ''Could not initialize inotify\<newline>'') = 2
   \<and> count_list (fst (snd (ih_startup_calls [False, False] ih_statics0))) Call_ip_startup = 2"
  by (simp add: ih_startup_def ih_statics0_def)

text \<open>
  C7. \<open>ih_sub_add\<close> always returns TRUE. It calls \<open>_ip_start_watching\<close> and, when that
  fails, \<open>_im_add\<close>; when the watch starts it calls nothing more. It does not touch the
  subscriptions.
\<close>

theorem ih_sub_add_always_true:
  "fst (ih_sub_add ok sub w) = True
   \<and> collab_calls (snd (ih_sub_add ok sub w)) =
       collab_calls w @
       (if ok then [Call_ip_start_watching sub]
        else [Call_ip_start_watching sub, Call_im_add sub])
   \<and> subs (snd (ih_sub_add ok sub w)) = subs w"
  by (simp add: ih_sub_add_def ip_start_watching_def im_add_def)

lemma ih_sub_add_cancelled:
  "cancelled (subs (snd (ih_sub_add ok sub w)) q) = cancelled (subs w q)"
  by (simp add: ih_sub_add_def ip_start_watching_def im_add_def)

lemma ih_sub_cancel_cancelled:
  "cancelled (subs w q) \<Longrightarrow> cancelled (subs (snd (ih_sub_cancel sub w)) q)"
  by (simp add: ih_sub_cancel_def ip_stop_watching_def im_rm_def set_cancelled_def)

lemma ih_run_cancelled:
  "cancelled (subs w q) \<Longrightarrow> cancelled (subs (ih_run ops w) q)"
proof (induction ops w rule: ih_run.induct)
  case (1 w)
  then show ?case by simp
next
  case (2 ok sub ops w)
  then show ?case by (simp add: ih_sub_add_cancelled)
next
  case (3 sub ops w)
  then show ?case by (simp add: ih_sub_cancel_cancelled)
qed

text \<open>
  The invariant of the spec's section 3: no member of either set is cancelled. Both
  operations keep it.
\<close>

lemma ih_sub_add_keeps_invariant:
  assumes "\<forall>s\<in>kernel_watch_set w \<union> missing_path_set w. \<not> cancelled (subs w s)"
  shows "\<forall>s\<in>kernel_watch_set (snd (ih_sub_add ok sub w))
              \<union> missing_path_set (snd (ih_sub_add ok sub w)).
           \<not> cancelled (subs (snd (ih_sub_add ok sub w)) s)"
  using assms by (auto simp: ih_sub_add_def ip_start_watching_def im_add_def)

lemma ih_sub_cancel_keeps_invariant:
  assumes "\<forall>s\<in>kernel_watch_set w \<union> missing_path_set w. \<not> cancelled (subs w s)"
  shows "\<forall>s\<in>kernel_watch_set (snd (ih_sub_cancel sub w))
              \<union> missing_path_set (snd (ih_sub_cancel sub w)).
           \<not> cancelled (subs (snd (ih_sub_cancel sub w)) s)"
  using assms
  by (auto simp: ih_sub_cancel_def ip_stop_watching_def im_rm_def set_cancelled_def)

lemma ih_run_keeps_invariant:
  assumes "\<forall>s\<in>kernel_watch_set w \<union> missing_path_set w. \<not> cancelled (subs w s)"
  shows "\<forall>s\<in>kernel_watch_set (ih_run ops w) \<union> missing_path_set (ih_run ops w).
           \<not> cancelled (subs (ih_run ops w) s)"
  using assms
proof (induction ops w rule: ih_run.induct)
  case (1 w)
  then show ?case by simp
next
  case (2 ok sub ops w)
  from "2.IH" [OF ih_sub_add_keeps_invariant [OF "2.prems"]] show ?case by simp
next
  case (3 sub ops w)
  from "3.IH" [OF ih_sub_cancel_keeps_invariant [OF "3.prems"]] show ?case by simp
qed

lemma ih_sub_cancel_fresh:
  assumes "\<not> cancelled (subs w sub)"
  shows "ih_sub_cancel sub w = (True, ip_stop_watching sub (im_rm sub (set_cancelled sub w)))"
    and "collab_calls (snd (ih_sub_cancel sub w)) =
           collab_calls w @ [Call_im_rm sub True, Call_ip_stop_watching sub True]"
    and "sub \<notin> kernel_watch_set (snd (ih_sub_cancel sub w))"
    and "sub \<notin> missing_path_set (snd (ih_sub_cancel sub w))"
  using assms
  by (simp_all add: ih_sub_cancel_def ip_stop_watching_def im_rm_def set_cancelled_def)

text \<open>
  The order is visible in the log: setting the flag only after the two removal calls
  gives another world, since both callees would then find the flag unset.
\<close>

lemma flag_set_after_removals_differs:
  assumes "\<not> cancelled (subs w sub)"
  shows "set_cancelled sub (ip_stop_watching sub (im_rm sub w)) \<noteq> snd (ih_sub_cancel sub w)"
proof
  assume "set_cancelled sub (ip_stop_watching sub (im_rm sub w)) = snd (ih_sub_cancel sub w)"
  then have "collab_calls (set_cancelled sub (ip_stop_watching sub (im_rm sub w))) =
             collab_calls (snd (ih_sub_cancel sub w))"
    by simp
  with assms show False
    by (simp add: ih_sub_cancel_def ip_stop_watching_def im_rm_def set_cancelled_def)
qed

text \<open>
  C5. Take any run of additions and cancellations from a registry in which no member of
  either set is cancelled, and cancel a subscription after it. If the subscription is
  already cancelled, \<open>ih_sub_cancel\<close> does nothing. Otherwise it sets \<open>cancelled\<close>, then
  calls \<open>_im_rm\<close>, then \<open>_ip_stop_watching\<close>: both callees find the flag set. Afterwards
  the subscription is cancelled and in neither set, and no further run resets the flag.
\<close>

theorem ih_sub_cancel_effect:
  assumes "\<forall>s\<in>kernel_watch_set w0 \<union> missing_path_set w0. \<not> cancelled (subs w0 s)"
    and "w = ih_run ops w0"
  shows "(cancelled (subs w sub) \<longrightarrow> ih_sub_cancel sub w = (True, w))
   \<and> (\<not> cancelled (subs w sub) \<longrightarrow>
        ih_sub_cancel sub w = (True, ip_stop_watching sub (im_rm sub (set_cancelled sub w)))
        \<and> collab_calls (snd (ih_sub_cancel sub w)) =
            collab_calls w @ [Call_im_rm sub True, Call_ip_stop_watching sub True])
   \<and> cancelled (subs (snd (ih_sub_cancel sub w)) sub)
   \<and> (cancelled (subs w q) \<longrightarrow> cancelled (subs (ih_run later w) q))
   \<and> sub \<notin> kernel_watch_set (snd (ih_sub_cancel sub w))
   \<and> sub \<notin> missing_path_set (snd (ih_sub_cancel sub w))"
proof -
  from ih_run_keeps_invariant [OF assms(1), of ops] assms(2)
  have inv: "\<forall>s\<in>kernel_watch_set w \<union> missing_path_set w. \<not> cancelled (subs w s)"
    by simp
  have noop: "ih_sub_cancel sub w = (True, w)" if "cancelled (subs w sub)"
    using that by (simp add: ih_sub_cancel_def)
  have flag: "cancelled (subs (snd (ih_sub_cancel sub w)) sub)"
    by (simp add: ih_sub_cancel_def ip_stop_watching_def im_rm_def set_cancelled_def)
  have mono: "cancelled (subs (ih_run later w) q)" if "cancelled (subs w q)"
    using that by (rule ih_run_cancelled)
  have out: "sub \<notin> kernel_watch_set (snd (ih_sub_cancel sub w))
           \<and> sub \<notin> missing_path_set (snd (ih_sub_cancel sub w))"
  proof (cases "cancelled (subs w sub)")
    case True
    with inv have "sub \<notin> kernel_watch_set w \<and> sub \<notin> missing_path_set w" by blast
    with noop [OF True] show ?thesis by simp
  next
    case False
    from ih_sub_cancel_fresh(3,4) [OF False] show ?thesis by simp
  qed
  from noop ih_sub_cancel_fresh(1,2) flag mono out show ?thesis by blast
qed

theorem ih_sub_cancel_effect_witness:
  "kernel_watch_set ih_world0 \<union> missing_path_set ih_world0 = {}
   \<and> 1 \<in> missing_path_set (ih_run [Sub_add True 0, Sub_add False 1] ih_world0)
   \<and> \<not> cancelled (subs (ih_run [Sub_add True 0, Sub_add False 1] ih_world0) 1)
   \<and> collab_calls (snd (ih_sub_cancel 1 (ih_run [Sub_add True 0, Sub_add False 1] ih_world0)))
       = [Call_ip_start_watching 0, Call_ip_start_watching 1, Call_im_add 1,
          Call_im_rm 1 True, Call_ip_stop_watching 1 True]
   \<and> 1 \<notin> kernel_watch_set
        (snd (ih_sub_cancel 1 (ih_run [Sub_add True 0, Sub_add False 1] ih_world0)))
   \<and> 1 \<notin> missing_path_set
        (snd (ih_sub_cancel 1 (ih_run [Sub_add True 0, Sub_add False 1] ih_world0)))
   \<and> cancelled (subs (ih_run [Sub_add True 0, Sub_cancel 0] ih_world0) 0)
   \<and> ih_sub_cancel 0 (ih_run [Sub_add True 0, Sub_cancel 0] ih_world0)
       = (True, ih_run [Sub_add True 0, Sub_cancel 0] ih_world0)
   \<and> 0 \<notin> kernel_watch_set
        (snd (ih_sub_cancel 0 (ih_run [Sub_add True 0, Sub_cancel 0] ih_world0)))"
proof -
  have start: "\<forall>s\<in>kernel_watch_set ih_world0 \<union> missing_path_set ih_world0.
      \<not> cancelled (subs ih_world0 s)"
    by (simp add: ih_world0_def)
  let ?w1 = "ih_run [Sub_add True 0, Sub_add False 1] ih_world0"
  let ?w2 = "ih_run [Sub_add True 0, Sub_cancel 0] ih_world0"
  have member: "1 \<in> missing_path_set ?w1" and fresh: "\<not> cancelled (subs ?w1 1)"
    and log: "collab_calls ?w1 =
                [Call_ip_start_watching 0, Call_ip_start_watching 1, Call_im_add 1]"
    by (simp_all add: ih_world0_def ih_sub_add_def ip_start_watching_def im_add_def)
  have gone: "cancelled (subs ?w2 0)"
    by (simp add: ih_world0_def ih_sub_add_def ip_start_watching_def ih_sub_cancel_def
          ip_stop_watching_def im_rm_def set_cancelled_def)
  note first = ih_sub_cancel_effect [OF start refl, of "[Sub_add True 0, Sub_add False 1]" 1 1 "[]"]
  note second = ih_sub_cancel_effect [OF start refl, of "[Sub_add True 0, Sub_cancel 0]" 0 0 "[]"]
  from first fresh
  have "collab_calls (snd (ih_sub_cancel 1 ?w1))
       = collab_calls ?w1 @ [Call_im_rm 1 True, Call_ip_stop_watching 1 True]"
    by blast
  then have a: "collab_calls (snd (ih_sub_cancel 1 ?w1))
       = [Call_ip_start_watching 0, Call_ip_start_watching 1, Call_im_add 1,
          Call_im_rm 1 True, Call_ip_stop_watching 1 True]"
    by (simp only: log append.simps)
  have empty: "kernel_watch_set ih_world0 \<union> missing_path_set ih_world0 = {}"
    by (simp add: ih_world0_def)
  from empty member fresh a first gone second show ?thesis by blast
qed


section \<open>Properties of the cancellable stream\<close>

lemma read_loop_cancelled:
  "read_loop res ((True, r) # rounds) = Some (res, Some G_IO_ERROR_CANCELLED)"
  by simp

lemma read_async_cb_cancelled:
  "read_async_cb ((True, r) # rounds) = Some (- 1, Some G_IO_ERROR_CANCELLED)"
  by simp

text \<open>
  C3 (the code differs). A read whose cancellable is already cancelled when the loop is
  entered sets the Cancelled error but returns \<open>res\<close> as it found it: here the
  indeterminate value 5, which reads as a count of five bytes. The asynchronous callback
  returns \<open>-1\<close> on the same input.
\<close>

theorem g_socket_input_stream_read_cancelled_returns_garbage:
  "g_socket_input_stream_read 7 [Poll_ready 1] [(True, Read_bytes 0)] 5
     = Some (5, Some G_IO_ERROR_CANCELLED)
   \<and> read_async_cb [(True, Read_bytes 0)] = Some (- 1, Some G_IO_ERROR_CANCELLED)"
  by (simp add: g_socket_input_stream_read_def EINTR_def)

lemma read_loop_retries:
  "read_loop res (replicate k (False, Read_failed EINTR) @ rounds) =
     read_loop (if k = 0 then res else - 1) rounds"
  by (induction k arbitrary: res) simp_all

lemma read_loop_no_EINTR:
  "read_loop res rounds = Some (r, Some err) \<Longrightarrow> err \<noteq> G_IO_ERROR_from_errno EINTR"
  by (induction res rounds rule: read_loop.induct)
     (auto split: if_splits read_ret.splits)

lemma poll_loop_no_EINTR:
  "poll_loop polls = Some (Poll_failed e) \<Longrightarrow> e \<noteq> EINTR"
  by (induction polls) (auto split: if_splits)

lemma read_loop_returns:
  "\<exists>x\<in>set rounds. x \<noteq> (False, Read_failed EINTR) \<Longrightarrow> read_loop res rounds \<noteq> None"
  by (induction res rounds rule: read_loop.induct)
     (auto split: if_splits read_ret.splits)

text \<open>
  C8. In the read loop, rounds in which \<open>read\<close> fails with \<open>EINTR\<close> are skipped: the
  loop goes on with the next round (with \<open>res = -1\<close>). A failure with another errno
  returns \<open>-1\<close> with an I/O error made from that errno; a count, zero included, is
  returned as it is with no error. No error that the function sets is made from
  \<open>EINTR\<close>, and the loop returns as soon as a round is not an \<open>EINTR\<close> failure.
\<close>

theorem read_loop_retries_only_EINTR:
  "read_loop res (replicate k (False, Read_failed EINTR) @ rounds) =
     read_loop (if k = 0 then res else - 1) rounds
   \<and> (e \<noteq> EINTR \<longrightarrow>
        read_loop res ((False, Read_failed e) # rounds) =
          Some (- 1, Some (G_IO_ERROR_from_errno e)))
   \<and> read_loop res ((False, Read_bytes n) # rounds) = Some (int n, None)
   \<and> (g_socket_input_stream_read cancel_fd polls rounds res = Some (ret, Some err) \<longrightarrow>
        err \<noteq> G_IO_ERROR_from_errno EINTR)
   \<and> ((\<exists>x\<in>set rounds. x \<noteq> (False, Read_failed EINTR)) \<longrightarrow> read_loop res rounds \<noteq> None)"
proof (intro conjI impI)
  show "read_loop res (replicate k (False, Read_failed EINTR) @ rounds) =
     read_loop (if k = 0 then res else - 1) rounds"
    by (rule read_loop_retries)
  show "err \<noteq> G_IO_ERROR_from_errno EINTR"
    if "g_socket_input_stream_read cancel_fd polls rounds res = Some (ret, Some err)"
    using that
    by (auto simp: g_socket_input_stream_read_def
             split: if_splits option.splits poll_ret.splits
             dest: read_loop_no_EINTR poll_loop_no_EINTR)
  show "read_loop res rounds \<noteq> None"
    if "\<exists>x\<in>set rounds. x \<noteq> (False, Read_failed EINTR)"
    using that by (rule read_loop_returns)
qed simp_all

theorem read_loop_retries_only_EINTR_witness:
  "read_loop 5 [(False, Read_failed EINTR), (False, Read_failed EINTR), (False, Read_bytes 3)]
     = Some (3, None)
   \<and> (11::int) \<noteq> EINTR
   \<and> read_loop 5 [(False, Read_failed EINTR), (False, Read_failed 11)]
     = Some (- 1, Some (G_IO_ERROR_from_errno 11))
   \<and> read_loop 5 [(False, Read_bytes 0)] = Some (0, None)
   \<and> g_socket_input_stream_read (- 1) [] [(False, Read_failed EINTR), (False, Read_failed 11)] 5
     = Some (- 1, Some (G_IO_ERROR_from_errno 11))
   \<and> G_IO_ERROR_from_errno 11 \<noteq> G_IO_ERROR_from_errno EINTR"
  using read_loop_retries_only_EINTR [of 5 2 "[(False, Read_bytes 3)]" 11 3 "- 1" "[]" "- 1" "G_IO_ERROR_from_errno 11"]
    read_loop_retries_only_EINTR [of 5 1 "[(False, Read_failed 11)]" 11 0 "- 1" "[]" "- 1" "G_IO_ERROR_from_errno 11"]
    read_loop_retries_only_EINTR [of 5 0 "[(False, Read_failed EINTR), (False, Read_failed 11)]" 11 0 "- 1" "[]" "- 1"
          "G_IO_ERROR_from_errno 11"]
  by (simp add: g_socket_input_stream_read_def EINTR_def)

lemma close_noop:
  "\<not> close_fd_at_close (priv w) \<Longrightarrow> g_socket_input_stream_close r w = ((True, None), w)"
  by (simp add: g_socket_input_stream_close_def)

lemma close_calls_noop:
  "\<not> close_fd_at_close (priv w) \<Longrightarrow>
   close_calls rs w = (replicate (length rs) (True, None), w)"
  by (induction rs) (simp_all add: close_noop)

text \<open>
  C9. On a handle whose \<open>close_fd_at_close\<close> is FALSE, \<open>g_socket_input_stream_close\<close>
  returns TRUE with no error, issues no system call and leaves the handle as it was;
  so does a second call, and so does any number of calls.
\<close>

theorem close_without_close_fd_is_noop:
  assumes "\<not> close_fd_at_close (priv w)"
  shows "g_socket_input_stream_close r w = ((True, None), w)
       \<and> g_socket_input_stream_close r2 (snd (g_socket_input_stream_close r w)) = ((True, None), w)
       \<and> close_calls rs w = (replicate (length rs) (True, None), w)
       \<and> fd (priv (snd (close_calls rs w))) = fd (priv w)
       \<and> syscalls (snd (close_calls rs w)) = syscalls w"
  using assms by (simp add: close_noop close_calls_noop)

theorem close_without_close_fd_is_noop_witness:
  "\<not> close_fd_at_close (priv \<lparr> priv = \<lparr> fd = 3, close_fd_at_close = False \<rparr>, syscalls = [] \<rparr>)
   \<and> close_calls [Close_ok, Close_failed 9]
        \<lparr> priv = \<lparr> fd = 3, close_fd_at_close = False \<rparr>, syscalls = [] \<rparr>
     = ([(True, None), (True, None)],
        \<lparr> priv = \<lparr> fd = 3, close_fd_at_close = False \<rparr>, syscalls = [] \<rparr>)"
  using close_without_close_fd_is_noop [of "\<lparr> priv = \<lparr> fd = 3, close_fd_at_close = False \<rparr>, syscalls = [] \<rparr>"
              Close_ok Close_ok "[Close_ok, Close_failed 9]"]
  by (simp del: close_calls.simps)

end
